theory Spec2Isabelle
  imports Main "HOL-Library.Word" "HOL-Library.Multiset"
begin

section \<open>Sender recovery stage: eth/stagedsync/stage_senders.go\<close>

text \<open>
  A shallow embedding of the sender recovery stage. Go's \<open>int\<close> is modelled by \<open>int\<close>
  (the wrap-around is written out where a product is formed from a caller's value),
  \<open>uint64\<close> block numbers by \<open>64 word\<close>, byte slices by lists of \<open>8 word\<close>, an error
  value by the datatype \<open>error\<close> and a nil error by \<open>None\<close>.
\<close>

subsection \<open>Values\<close>

type_synonym byte = "8 word"

text \<open>A \<open>common.Address\<close> is an array of 20 bytes; the buffer handles it as a byte slice.\<close>

type_synonym address = "byte list"

text \<open>A \<open>common.Hash\<close> is an array of 32 bytes; the empty hash is the all-zero one.\<close>

type_synonym hash = "256 word"

datatype error =
    EOF                      \<comment> \<open>\<open>io.EOF\<close>\<close>
  | ErrStopped               \<comment> \<open>\<open>common.ErrStopped\<close>\<close>
  | New string               \<comment> \<open>\<open>errors.New(msg)\<close>, and any error of a collaborator\<close>
  | Wrap error string        \<comment> \<open>\<open>errors.Wrap(err, msg)\<close>\<close>
  | WrapTx error hash        \<comment> \<open>\<open>errors.Wrap(err, fmt.Sprintf("error recovering sender for tx=%x\n", hash))\<close>\<close>
  | Errorf string error      \<comment> \<open>\<open>fmt.Errorf(format, err)\<close> with the format up to its \<open>%v\<close>\<close>
  | SliceBounds              \<comment> \<open>the run-time panic of a slice expression out of range\<close>

definition AddressLength :: int where
  "AddressLength = 20"

subsection \<open>The backing stream\<close>

text \<open>
  \<open>AddressBuffer\<close> embeds an \<open>io.ReadWriteCloser\<close>. The interface is a record of the two
  methods the buffer calls, over the state \<open>'s\<close> of the stream. \<open>Write p\<close> returns the
  count and the error; \<open>Read\<close> is given \<open>len(p)\<close> and returns the bytes it stored at the
  front of \<open>p\<close> (their number is Go's \<open>n\<close>) and the error.
\<close>

record 's ReadWriteCloser =
  Write_rwc :: "byte list \<Rightarrow> 's \<Rightarrow> (int \<times> error option) \<times> 's"
  Read_rwc :: "nat \<Rightarrow> 's \<Rightarrow> (byte list \<times> error option) \<times> 's"

text \<open>
  A regular file as \<open>os.File\<close> presents it: \<open>Write\<close> appends the whole slice,
  \<open>Read\<close> returns the bytes from the read offset on, at most \<open>len(p)\<close> of them, and
  \<open>0, io.EOF\<close> at the end of the file (\<open>0, nil\<close> when \<open>len(p) = 0\<close>).
\<close>

record osfile =
  content :: "byte list"
  offset :: nat

definition file_Write :: "byte list \<Rightarrow> osfile \<Rightarrow> (int \<times> error option) \<times> osfile" where
  "file_Write p f = ((int (length p), None), f\<lparr>content := content f @ p\<rparr>)"

definition file_Read :: "nat \<Rightarrow> osfile \<Rightarrow> (byte list \<times> error option) \<times> osfile" where
  "file_Read k f =
     (if k = 0 then (([], None), f)
      else let bs = take k (drop (offset f) (content f)) in
        if bs = [] then (([], Some EOF), f)
        else ((bs, None), f\<lparr>offset := offset f + length bs\<rparr>))"

definition osFile :: "osfile ReadWriteCloser" where
  "osFile = \<lparr>Write_rwc = file_Write, Read_rwc = file_Read\<rparr>"

definition newFile :: "byte list \<Rightarrow> osfile" where
  "newFile bs = \<lparr>content = bs, offset = 0\<rparr>"

subsection \<open>AddressBuffer\<close>

record 's AddressBuffer =
  buf :: "byte list"
  size_a :: int
  currentIdx :: int
  rwc :: 's

text \<open>
  \<open>NewAddressBuffer\<close>: \<open>length := size * len(common.Address{})\<close> is a product of Go
  \<open>int\<close>s and wraps at 64 bits; \<open>make\<close> panics on a negative length (\<open>None\<close>). In write
  mode (\<open>fullLength\<close>) the slice is empty, in read mode it holds \<open>length\<close> zero bytes.
\<close>

definition NewAddressBuffer :: "'s \<Rightarrow> int \<Rightarrow> bool \<Rightarrow> 's AddressBuffer option" where
  "NewAddressBuffer f sz fullLength =
     (let len = sint (word_of_int (sz * AddressLength) :: 64 word) in
      if len < 0 then None
      else Some \<lparr>buf = (if fullLength then [] else replicate (nat len) 0),
                 size_a = sz, currentIdx = - 1, rwc = f\<rparr>)"

definition Reset :: "'s AddressBuffer \<Rightarrow> 's AddressBuffer" where
  "Reset a = a\<lparr>buf := take 0 (buf a)\<rparr>"

definition Write :: "'s ReadWriteCloser \<Rightarrow> 's AddressBuffer \<Rightarrow> (int \<times> error option) \<times> 's AddressBuffer" where
  "Write io a =
     (if length (buf a) > 0 then
        (case Write_rwc io (buf a) (rwc a) of
           ((n, Some err), s) \<Rightarrow> ((0, Some err), a\<lparr>rwc := s\<rparr>)
         | ((n, None), s) \<Rightarrow> ((n, None), Reset (a\<lparr>rwc := s\<rparr>)))
      else ((0, None), a))"

definition Read :: "'s ReadWriteCloser \<Rightarrow> 's AddressBuffer \<Rightarrow> (int \<times> error option) \<times> 's AddressBuffer" where
  "Read io a =
     (case Read_rwc io (length (buf a)) (rwc a) of
        ((bs, err), s) \<Rightarrow>
          ((int (length bs), err), a\<lparr>buf := bs @ drop (length bs) (buf a), rwc := s\<rparr>))"

definition Add :: "byte list \<Rightarrow> 's AddressBuffer \<Rightarrow> 's AddressBuffer" where
  "Add b a = a\<lparr>buf := buf a @ b\<rparr>"

definition Len :: "'s AddressBuffer \<Rightarrow> int" where
  "Len a = int (length (buf a))"

text \<open>
  The slice expression \<open>a.buf[lo:hi]\<close> panics unless \<open>0 \<le> lo \<le> hi \<le> len(a.buf)\<close>
  (the capacity of a read-mode buffer is its length).
\<close>

definition slice :: "byte list \<Rightarrow> int \<Rightarrow> int \<Rightarrow> error + byte list" where
  "slice xs lo hi =
     (if 0 \<le> lo \<and> lo \<le> hi \<and> hi \<le> int (length xs)
      then Inr (take (nat (hi - lo)) (drop (nat lo) xs)) else Inl SliceBounds)"

text \<open>The tail of \<open>Next\<close> from \<open>a.currentIdx++\<close> on.\<close>

definition fetch :: "'s AddressBuffer \<Rightarrow> (error + address) \<times> 's AddressBuffer" where
  "fetch a =
     (let a' = a\<lparr>currentIdx := currentIdx a + 1\<rparr> in
      (slice (buf a') (currentIdx a' * 20) ((currentIdx a' + 1) * 20), a'))"

definition Next :: "'s ReadWriteCloser \<Rightarrow> 's AddressBuffer \<Rightarrow> (error + address) \<times> 's AddressBuffer" where
  "Next io a =
     (let a1 = (if (currentIdx a + 2) * 20 > int (length (buf a))
                then a\<lparr>currentIdx := - 1\<rparr> else a) in
      if currentIdx a1 = - 1 then
        (case Read io a1 of
           ((n, Some err), a2) \<Rightarrow> (Inl err, a2)
         | ((n, None), a2) \<Rightarrow>
             if n mod AddressLength \<noteq> 0 then (Inl (New ''got invalid address length''), a2)
             else if n = 0 then (Inl EOF, a2)
             else fetch a2)
      else fetch a1)"

text \<open>Calling \<open>Add\<close> for each address of a list, and \<open>Next\<close> a number of times.\<close>

fun AddAll :: "address list \<Rightarrow> 's AddressBuffer \<Rightarrow> 's AddressBuffer" where
  "AddAll [] a = a"
| "AddAll (x # xs) a = AddAll xs (Add x a)"

fun NextN :: "'s ReadWriteCloser \<Rightarrow> nat \<Rightarrow> 's AddressBuffer \<Rightarrow> (error + address) list \<times> 's AddressBuffer" where
  "NextN io 0 a = ([], a)"
| "NextN io (Suc k) a =
     (case Next io a of (r, a') \<Rightarrow> (case NextN io k a' of (rs, a'') \<Rightarrow> (r # rs, a'')))"

subsection \<open>Invariant of reading a file through the buffer\<close>

text \<open>
  The bytes of a file that \<open>Read\<close> has not returned yet, and the invariant of a
  read-mode buffer over a file whose pending records are \<open>rest\<close>: the first \<open>v\<close>
  bytes of the window are the bytes of the last \<open>Read\<close>, the records after
  \<open>currentIdx\<close> in them, followed by the unread bytes of the file, are \<open>rest\<close>.
\<close>

definition unread :: "osfile \<Rightarrow> byte list" where
  "unread f = drop (offset f) (content f)"

definition reading :: "nat \<Rightarrow> osfile AddressBuffer \<Rightarrow> address list \<Rightarrow> bool" where
  "reading v a rest \<longleftrightarrow>
     20 dvd v \<and> 20 dvd length (buf a) \<and> 0 < length (buf a) \<and> - 1 \<le> currentIdx a \<and>
     (currentIdx a + 1) * 20 \<le> int v \<and> v \<le> length (buf a) \<and>
     (currentIdx a = - 1 \<longrightarrow> v = 0) \<and>
     (unread (rwc a) \<noteq> [] \<longrightarrow> v = length (buf a) \<or> currentIdx a = - 1) \<and>
     concat rest = drop (nat ((currentIdx a + 1) * 20)) (take v (buf a)) @ unread (rwc a) \<and>
     (\<forall>r\<in>set rest. length r = 20)"

subsection \<open>Transactions, bodies and signers\<close>

text \<open>
  Of a \<open>types.Transaction\<close> the stage uses \<open>Protected()\<close>, \<open>ChainID()\<close>, \<open>Hash()\<close> and
  \<open>SetFrom\<close>, which stores the sender in the transaction; of a \<open>types.Body\<close> its
  transactions. A \<open>secp256k1.Context\<close> is an object with an identity. A
  \<open>types.Signer\<close> is an interface: \<open>ChainID()\<close> and \<open>SenderWithContext(ctx, tx)\<close>.
\<close>

record Transaction =
  Protected :: bool
  ChainID :: int
  Hash :: hash
  from_a :: "address option"

record Body =
  Transactions :: "Transaction list"

type_synonym Context = nat

record Signer =
  ChainID_s :: int
  SenderWithContext :: "Context \<Rightarrow> Transaction \<Rightarrow> error + address"

definition SetFrom :: "address \<Rightarrow> Transaction \<Rightarrow> Transaction" where
  "SetFrom addr tx = tx\<lparr>from_a := Some addr\<rparr>"

definition zeroAddress :: address where
  "zeroAddress = replicate 20 0"

subsection \<open>recoverFrom\<close>

text \<open>
  The loop of \<open>recoverFrom\<close> over the transactions from index \<open>i\<close> on, with the slice
  \<open>froms\<close> made before it. A Go result \<open>([]common.Address, error)\<close> is a pair of options:
  \<open>None\<close> is the nil slice and the nil error. The assignment \<open>froms[i] = from\<close> panics out of
  range, which the length of \<open>froms\<close> excludes.
\<close>

fun recoverFrom_loop ::
  "Context \<Rightarrow> Signer \<Rightarrow> Transaction list \<Rightarrow> nat \<Rightarrow> address list \<Rightarrow> address list option \<times> error option" where
  "recoverFrom_loop ctx signer [] i froms = (Some froms, None)"
| "recoverFrom_loop ctx signer (tx # txs) i froms =
     (if Protected tx \<and> ChainID tx \<noteq> ChainID_s signer then (None, Some (New ''invalid chainId''))
      else (case SenderWithContext signer ctx tx of
              Inl err \<Rightarrow> (None, Some (WrapTx err (Hash tx)))
            | Inr sender \<Rightarrow>
                if i < length froms then recoverFrom_loop ctx signer txs (Suc i) (froms[i := sender])
                else (None, Some SliceBounds)))"

definition recoverFrom :: "Context \<Rightarrow> Body \<Rightarrow> Signer \<Rightarrow> address list option \<times> error option" where
  "recoverFrom cryptoContext blockBody signer =
     recoverFrom_loop cryptoContext signer (Transactions blockBody) 0
       (replicate (length (Transactions blockBody)) zeroAddress)"

text \<open>
  The two ways a transaction makes \<open>recoverFrom\<close> fail, for the statement of its
  properties: a replay-protected transaction of another chain, and a failed recovery.
\<close>

definition mismatch :: "Signer \<Rightarrow> Transaction \<Rightarrow> bool" where
  "mismatch signer tx \<longleftrightarrow> Protected tx \<and> ChainID tx \<noteq> ChainID_s signer"

definition unrecoverable :: "Context \<Rightarrow> Signer \<Rightarrow> Transaction \<Rightarrow> bool" where
  "unrecoverable ctx signer tx \<longleftrightarrow> (case SenderWithContext signer ctx tx of Inl err \<Rightarrow> True | Inr a \<Rightarrow> False)"

definition failing :: "Context \<Rightarrow> Signer \<Rightarrow> Transaction \<Rightarrow> bool" where
  "failing ctx signer tx \<longleftrightarrow> mismatch signer tx \<or> unrecoverable ctx signer tx"

text \<open>
  The address that a successful recovery returns for a transaction, and the error that
  \<open>recoverFrom\<close> makes of a failed one.
\<close>

definition recovered :: "Context \<Rightarrow> Signer \<Rightarrow> Transaction \<Rightarrow> address" where
  "recovered ctx signer tx = (case SenderWithContext signer ctx tx of Inr a \<Rightarrow> a | Inl err \<Rightarrow> zeroAddress)"

definition recoveryError :: "Context \<Rightarrow> Signer \<Rightarrow> Transaction \<Rightarrow> error" where
  "recoveryError ctx signer tx =
     (case SenderWithContext signer ctx tx of Inl err \<Rightarrow> WrapTx err (Hash tx) | Inr a \<Rightarrow> SliceBounds)"

subsection \<open>The pool of cryptographic contexts and the workers\<close>

text \<open>
  The package variables \<open>numOfGoroutines\<close> and \<open>cryptoContexts\<close>; \<open>created\<close> counts the
  calls of \<open>secp256k1.NewContext()\<close>, each of which returns a new context.
\<close>

record Globals =
  numOfGoroutines :: int
  cryptoContexts :: "Context list"
  created :: nat

definition NewContext :: "Globals \<Rightarrow> Context \<times> Globals" where
  "NewContext g = (created g, g\<lparr>created := Suc (created g)\<rparr>)"

text \<open>\<open>for i := 0; i < k; i++ { cryptoContexts = append(cryptoContexts, secp256k1.NewContext()) }\<close>\<close>

fun appendContexts :: "nat \<Rightarrow> Globals \<Rightarrow> Globals" where
  "appendContexts 0 g = g"
| "appendContexts (Suc k) g =
     (case NewContext g of (c, g') \<Rightarrow> appendContexts k (g'\<lparr>cryptoContexts := cryptoContexts g' @ [c]\<rparr>))"

text \<open>
  \<open>init\<close>, given \<open>runtime.NumCPU()\<close>. \<open>make\<close> panics on a negative length (\<open>None\<close>); filling
  the slice of \<open>numOfGoroutines\<close> nil entries in index order is appending to the empty one.
\<close>

definition init :: "int \<Rightarrow> Globals option" where
  "init numCPU =
     (let n = (if 3 > numCPU then numCPU else 3) in
      if n < 0 then None
      else Some (appendContexts (nat n) \<lparr>numOfGoroutines = n, cryptoContexts = [], created = 0\<rparr>))"

text \<open>
  The part of \<open>spawnRecoverSendersStage\<close> that starts the workers, lines 63 to 90. The
  local \<open>onlySecondStage\<close>, which the source sets to \<open>true\<close>, is a parameter. The result is
  the context handed to each \<open>go recoverSenders(ctx, ...)\<close>, in the order of the calls;
  \<open>cryptoContexts[i]\<close> panics out of range (\<open>None\<close>).
\<close>

definition startWorkers :: "bool \<Rightarrow> Globals \<Rightarrow> (Context list \<times> Globals) option" where
  "startWorkers onlySecondStage g =
     (if \<not> onlySecondStage then
        (let n0 = numOfGoroutines g;
             n = (32 :: int);
             ctxLength = int (length (cryptoContexts g));
             g' = (if ctxLength < n then appendContexts (nat (n - ctxLength)) g else g)
         in if nat n \<le> length (cryptoContexts g')
            then Some (map (\<lambda>i. cryptoContexts g' ! i) [0 ..< nat n], g')
            else None)
      else Some ([], g))"

definition onlySecondStage :: bool where
  "onlySecondStage = True"

subsection \<open>Storage\<close>

text \<open>
  Modelled from the spec: the storage collaborators (packages \<open>ethdb\<close>, \<open>rawdb\<close> and
  \<open>stages\<close>, and \<open>StageState\<close>) are not among the sources. The spec gives their interface:
  a key-value store with a batch-mutation object (\<open>Commit\<close>, \<open>BatchSize\<close>,
  \<open>IdealBatchSize\<close>, a fresh batch after commit), \<open>ReadCanonicalHash\<close>, \<open>ReadBody\<close> and
  \<open>WriteBody\<close>, and a stage-progress ledger (\<open>GetProgress\<close>, \<open>SaveUnwind\<close>, \<open>Update\<close>)
  that holds the last processed block number of the stage and its unwind marker.
  A database is the content of those tables for the stage Senders; a batch holds the
  pending writes over a database, reads through a batch see them, and \<open>Commit\<close> applies
  them. The size of a batch is the number of its pending writes. An operation that can
  return an error fails, without effect, with the error that \<open>fault\<close> assigns to it.
\<close>

datatype StorageOp = OpGetStageProgress | OpSaveStageProgress | OpSaveStageUnwind | OpCommit

datatype put =
    PutBody hash "64 word" Body
  | PutStageProgress "64 word"
  | PutStageUnwind "64 word"

record Database =
  canonical :: "64 word \<Rightarrow> hash"
  bodies :: "hash \<times> 64 word \<Rightarrow> Body option"
  progress :: "64 word"
  unwind :: "64 word"
  idealBatchSize :: int
  fault :: "StorageOp \<Rightarrow> error option"

fun apply_put :: "Database \<Rightarrow> put \<Rightarrow> Database" where
  "apply_put d (PutBody h n b) = d\<lparr>bodies := (bodies d)((h, n) := Some b)\<rparr>"
| "apply_put d (PutStageProgress n) = d\<lparr>progress := n\<rparr>"
| "apply_put d (PutStageUnwind n) = d\<lparr>unwind := n\<rparr>"

record Batch =
  db :: Database
  puts :: "put list"

definition NewBatch :: "Database \<Rightarrow> Batch" where
  "NewBatch stateDB = \<lparr>db = stateDB, puts = []\<rparr>"

definition view :: "Batch \<Rightarrow> Database" where
  "view m = foldl apply_put (db m) (puts m)"

definition Put :: "put \<Rightarrow> Batch \<Rightarrow> Batch" where
  "Put p m = m\<lparr>puts := puts m @ [p]\<rparr>"

definition Commit :: "Batch \<Rightarrow> error option \<times> Batch" where
  "Commit m =
     (case fault (db m) OpCommit of
        Some e \<Rightarrow> (Some e, m)
      | None \<Rightarrow> (None, m\<lparr>db := view m, puts := []\<rparr>))"

definition BatchSize :: "Batch \<Rightarrow> int" where
  "BatchSize m = int (length (puts m))"

definition IdealBatchSize :: "Batch \<Rightarrow> int" where
  "IdealBatchSize m = idealBatchSize (db m)"

definition ReadCanonicalHash :: "Batch \<Rightarrow> 64 word \<Rightarrow> hash" where
  "ReadCanonicalHash m n = canonical (view m) n"

definition IsEmpty :: "hash \<Rightarrow> bool" where
  "IsEmpty h \<longleftrightarrow> h = 0"

definition ReadBody :: "Batch \<Rightarrow> hash \<Rightarrow> 64 word \<Rightarrow> Body option" where
  "ReadBody m h n = bodies (view m) (h, n)"

definition WriteBody :: "Batch \<Rightarrow> hash \<Rightarrow> 64 word \<Rightarrow> Body \<Rightarrow> Batch" where
  "WriteBody m h n b = Put (PutBody h n b) m"

definition GetStageProgress :: "Database \<Rightarrow> 64 word \<times> error option" where
  "GetStageProgress d =
     (case fault d OpGetStageProgress of Some e \<Rightarrow> (0, Some e) | None \<Rightarrow> (progress d, None))"

text \<open>\<open>stages.SaveStageUnwind\<close> takes a database or a batch.\<close>

definition SaveStageUnwind_db :: "Database \<Rightarrow> 64 word \<Rightarrow> error option \<times> Database" where
  "SaveStageUnwind_db d n =
     (case fault d OpSaveStageUnwind of Some e \<Rightarrow> (Some e, d) | None \<Rightarrow> (None, apply_put d (PutStageUnwind n)))"

definition SaveStageUnwind :: "Batch \<Rightarrow> 64 word \<Rightarrow> error option \<times> Batch" where
  "SaveStageUnwind m n =
     (case fault (db m) OpSaveStageUnwind of Some e \<Rightarrow> (Some e, m) | None \<Rightarrow> (None, Put (PutStageUnwind n) m))"

text \<open>\<open>s.Update(mutation, n)\<close> of the \<open>StageState\<close> of the stage Senders.\<close>

definition Update :: "Batch \<Rightarrow> 64 word \<Rightarrow> error option \<times> Batch" where
  "Update m n =
     (case fault (db m) OpSaveStageProgress of Some e \<Rightarrow> (Some e, m) | None \<Rightarrow> (None, Put (PutStageProgress n) m))"

text \<open>
  Modelled from the spec: \<open>params.ChainConfig\<close> and \<open>types.MakeSigner\<close> are not among the
  sources; a configuration determines the signer of each block number.
\<close>

type_synonym ChainConfig = "64 word \<Rightarrow> Signer"

definition MakeSigner :: "ChainConfig \<Rightarrow> 64 word \<Rightarrow> Signer" where
  "MakeSigner config blockNumber = config blockNumber"

subsection \<open>getBlockBody and the producer loop\<close>

record senderRecoveryJob =
  signer :: Signer
  blockBody :: Body
  hash :: hash
  nextBlockNumber :: "64 word"
  err_j :: "error option"

text \<open>
  \<open>getBlockBody\<close>; a nil job is \<open>None\<close>. Its parameter \<open>blockNumber\<close> is a \<open>big.Int\<close> that it
  sets to \<open>nextBlockNumber\<close> to make the signer.
\<close>

definition getBlockBody :: "Batch \<Rightarrow> ChainConfig \<Rightarrow> 64 word \<Rightarrow> senderRecoveryJob option" where
  "getBlockBody mutation config n =
     (let h = ReadCanonicalHash mutation n in
      if IsEmpty h then None
      else (case ReadBody mutation h n of
              None \<Rightarrow> None
            | Some body \<Rightarrow>
                Some \<lparr>signer = MakeSigner config n, blockBody = body, hash = h,
                      nextBlockNumber = n, err_j = None\<rparr>))"

text \<open>
  The producer loop of \<open>spawnRecoverSendersStage\<close> (lines 104 to 122). \<open>quit i\<close> tells
  whether \<open>quitCh\<close> is closed at the check of iteration \<open>i\<close>. The result is the jobs sent,
  the error sent to \<open>errCh\<close> if any, and the final \<open>firstBlock\<close> and \<open>nextBlockNumber\<close>. The
  loop runs as long as blocks are present, so it takes fuel: \<open>None\<close> when it runs out.
\<close>

fun producer ::
  "nat \<Rightarrow> (nat \<Rightarrow> bool) \<Rightarrow> nat \<Rightarrow> Batch \<Rightarrow> ChainConfig \<Rightarrow> 64 word \<Rightarrow> 64 word \<Rightarrow>
   (senderRecoveryJob list \<times> error option \<times> 64 word \<times> 64 word) option" where
  "producer 0 quit i mutation config firstBlock n = None"
| "producer (Suc fuel) quit i mutation config firstBlock n =
     (if quit i then Some ([], Some ErrStopped, firstBlock, n)
      else (case getBlockBody mutation config n of
              None \<Rightarrow> Some ([], None, firstBlock, n)
            | Some job \<Rightarrow>
                (case producer fuel quit (Suc i) mutation config
                        (if firstBlock = 0 then nextBlockNumber job else firstBlock) (n + 1) of
                   None \<Rightarrow> None
                 | Some (jobs, e, fb, n') \<Rightarrow> Some (job # jobs, e, fb, n'))))"

subsection \<open>writeBatchFromDisk\<close>

text \<open>
  The loop over \<open>job.blockBody.Transactions\<close>: one \<open>Next\<close> and one \<open>SetFrom\<close> for each
  transaction, in order, returning at the first error of \<open>Next\<close>.
\<close>

fun setFroms ::
  "'s ReadWriteCloser \<Rightarrow> Transaction list \<Rightarrow> 's AddressBuffer \<Rightarrow> (error + Transaction list) \<times> 's AddressBuffer" where
  "setFroms io [] a = (Inr [], a)"
| "setFroms io (tx # txs) a =
     (case Next io a of
        (Inl e, a') \<Rightarrow> (Inl e, a')
      | (Inr addr, a') \<Rightarrow>
          (case setFroms io txs a' of
             (Inl e, a'') \<Rightarrow> (Inl e, a'')
           | (Inr txs', a'') \<Rightarrow> (Inr (SetFrom addr tx # txs'), a'')))"

text \<open>
  The loop of \<open>writeBatchFromDisk\<close> at the head of an iteration, with the buffer, the
  mutation and \<open>nextBlockNumber\<close>. The database that \<open>stateDB.NewBatch()\<close> reads is the
  one under the committed mutation. The loop runs as long as blocks are present, so it
  takes fuel: \<open>None\<close> when it runs out.
\<close>

fun writeBatchFromDisk_loop ::
  "nat \<Rightarrow> 's ReadWriteCloser \<Rightarrow> ChainConfig \<Rightarrow> 's AddressBuffer \<Rightarrow> Batch \<Rightarrow> 64 word \<Rightarrow>
   (error option \<times> 's AddressBuffer \<times> Batch) option" where
  "writeBatchFromDisk_loop 0 io config a mutation n = None"
| "writeBatchFromDisk_loop (Suc fuel) io config a mutation n =
     (case getBlockBody mutation config n of
        None \<Rightarrow> Some (None, a, mutation)
      | Some job \<Rightarrow>
          (let n' = n + 1 in
           case setFroms io (Transactions (blockBody job)) a of
             (Inl e, a') \<Rightarrow> Some (Some e, a', mutation)
           | (Inr txs, a') \<Rightarrow>
               (let m1 = WriteBody mutation (hash job) (nextBlockNumber job)
                           ((blockBody job)\<lparr>Transactions := txs\<rparr>) in
                if BatchSize m1 \<ge> IdealBatchSize m1 then
                  (case Update m1 n' of
                     (Some e, m2) \<Rightarrow> Some (Some e, a', m2)
                   | (None, m2) \<Rightarrow>
                       (case Commit m2 of
                          (Some e, m3) \<Rightarrow> Some (Some e, a', m3)
                        | (None, m3) \<Rightarrow> writeBatchFromDisk_loop fuel io config a' (NewBatch (db m3)) n'))
                else writeBatchFromDisk_loop fuel io config a' m1 n')))"

definition writeBatchFromDisk ::
  "nat \<Rightarrow> 's ReadWriteCloser \<Rightarrow> 's AddressBuffer \<Rightarrow> ChainConfig \<Rightarrow> Batch \<Rightarrow> 64 word \<Rightarrow>
   (error option \<times> 's AddressBuffer \<times> Batch) option" where
  "writeBatchFromDisk fuel io a config mutation lastBlockNumber =
     writeBatchFromDisk_loop fuel io config a mutation (lastBlockNumber + 1)"

subsection \<open>unwindSendersStage\<close>

definition unwindSendersStage :: "Database \<Rightarrow> 64 word \<Rightarrow> error option \<times> Database" where
  "unwindSendersStage stateDB unwindPoint =
     (case GetStageProgress stateDB of
        (lastProcessedBlockNumber, Some e) \<Rightarrow>
          (Some (Errorf ''unwind Senders: get stage progress: '' e), stateDB)
      | (lastProcessedBlockNumber, None) \<Rightarrow>
          if unwindPoint \<ge> lastProcessedBlockNumber then
            (case SaveStageUnwind_db stateDB 0 of
               (Some e, d) \<Rightarrow> (Some (Errorf ''unwind Senders: reset: '' e), d)
             | (None, d) \<Rightarrow> (None, d))
          else
            (let mutation = NewBatch stateDB in
             case SaveStageUnwind mutation 0 of
               (Some e, m) \<Rightarrow> (Some (Errorf ''unwind Senders: reset: '' e), db m)
             | (None, m) \<Rightarrow>
                 (case Commit m of
                    (Some e, m') \<Rightarrow> (Some (Errorf ''unwind Senders: failed to write db commit: '' e), db m')
                  | (None, m') \<Rightarrow> (None, db m'))))"

subsection \<open>writeOnDiskBatch\<close>

record TxsFroms =
  blockNumber :: "64 word"
  froms :: "address list"
  err_r :: "error option"

text \<open>
  What one iteration of \<open>for j := range out\<close> takes from its environment: the result
  received, and whether \<open>quitCh\<close> and \<open>doneCh\<close> are closed when \<open>common.Stopped\<close> looks.
\<close>

record event =
  result :: TxsFroms
  quitStopped :: bool
  doneStopped :: bool

text \<open>
  The local variables of \<open>writeOnDiskBatch\<close> that its control flow reads, and the buffer.
  The counters \<open>total\<close>, \<open>totalFroms\<close> and \<open>written\<close> and the memory statistics are only
  logged, and are left out.
\<close>

record 's writer =
  n_w :: int
  buffer_w :: "TxsFroms list"
  err_w :: "error option"
  isFirst_w :: bool
  currentBlock_w :: "64 word"
  buf_w :: "'s AddressBuffer"

text \<open>\<open>sort.SliceStable\<close> by block number.\<close>

definition sortBuffer :: "TxsFroms list \<Rightarrow> TxsFroms list" where
  "sortBuffer buffer = sort_key blockNumber buffer"

text \<open>
  The check for a row: \<open>for i := range buffer\<close> from index \<open>i\<close> on, with its two
  \<open>break\<close>s, and the test of the length before it. \<open>toSort\<close> is a parameter of the model;
  the source sets it to 1000.
\<close>

fun rowLoop :: "nat \<Rightarrow> nat \<Rightarrow> TxsFroms list \<Rightarrow> 64 word \<Rightarrow> bool" where
  "rowLoop toSort i [] currentBlock = True"
| "rowLoop toSort i (b # bs) currentBlock =
     (if i > toSort then True
      else if blockNumber b \<noteq> currentBlock + of_nat i then False
      else rowLoop toSort (Suc i) bs currentBlock)"

definition hasRow :: "nat \<Rightarrow> TxsFroms list \<Rightarrow> 64 word \<Rightarrow> bool" where
  "hasRow toSort buffer currentBlock =
     (if length buffer < toSort then False else rowLoop toSort 0 buffer currentBlock)"

text \<open>
  The two loops that write a window: over the addresses of a job, and over the jobs.
  They return the error of \<open>buf.Write()\<close> at which the function returns, if any.
\<close>

fun addFroms ::
  "'s ReadWriteCloser \<Rightarrow> address list \<Rightarrow> int \<times> 's AddressBuffer \<Rightarrow> error option \<times> int \<times> 's AddressBuffer" where
  "addFroms io [] (n, a) = (None, n, a)"
| "addFroms io (x # xs) (n, a) =
     (let n1 = n + 1; a1 = Add x a in
      if 20 * n1 \<ge> size_a a1 then
        (case Write io a1 of
           ((written, Some e), a2) \<Rightarrow> (Some e, n1, a2)
         | ((written, None), a2) \<Rightarrow> addFroms io xs (0, a2))
      else addFroms io xs (n1, a1))"

fun writeJobs ::
  "'s ReadWriteCloser \<Rightarrow> TxsFroms list \<Rightarrow> int \<times> 's AddressBuffer \<Rightarrow> error option \<times> int \<times> 's AddressBuffer" where
  "writeJobs io [] (n, a) = (None, n, a)"
| "writeJobs io (jobToWrite # jobs) (n, a) =
     (case addFroms io (froms jobToWrite) (n, a) of
        (Some e, n', a') \<Rightarrow> (Some e, n', a')
      | (None, n', a') \<Rightarrow> writeJobs io jobs (n', a'))"

datatype 'a flow = Continue 'a | Return "error option" 'a

text \<open>
  The body of \<open>for j := range out\<close> for one received result. The function's variable
  \<open>err\<close> is assigned by \<open>buf.Write()\<close> alone, and the function returns when that error is
  not nil: \<open>err\<close> is nil whenever the body starts, and a successful \<open>buf.Write()\<close> leaves
  it so. The second test of \<open>j.err\<close> is the \<open>case\<close> below.
\<close>

definition receive ::
  "nat \<Rightarrow> 's ReadWriteCloser \<Rightarrow> 64 word \<Rightarrow> event \<Rightarrow> 's writer \<Rightarrow> 's writer flow" where
  "receive toSort io firstBlock ev w =
     (let w1 = (if isFirst_w w then w\<lparr>currentBlock_w := firstBlock, isFirst_w := False\<rparr> else w);
          j = result ev in
      if err_r j \<noteq> None then Return (err_w w1) w1
      else if quitStopped ev then Return (Some ErrStopped) w1
      else if doneStopped ev then Return None w1
      else (case err_r j of
              Some e \<Rightarrow> Return (Some (Wrap e ''could not extract senders'')) w1
            | None \<Rightarrow>
                (let buffer1 = sortBuffer (buffer_w w1 @ [j]) in
                 if \<not> hasRow toSort buffer1 (currentBlock_w w1) then Continue (w1\<lparr>buffer_w := buffer1\<rparr>)
                 else
                   (let w2 = w1\<lparr>currentBlock_w := currentBlock_w w1 + of_nat toSort,
                                buffer_w := drop toSort buffer1\<rparr>;
                        writeFroms = take toSort buffer1 in
                    case writeJobs io writeFroms (n_w w2, buf_w w2) of
                      (Some e, n', a') \<Rightarrow> Return (Some e) (w2\<lparr>n_w := n', buf_w := a', err_w := Some e\<rparr>)
                    | (None, n', a') \<Rightarrow> Continue (w2\<lparr>n_w := n', buf_w := a'\<rparr>)))))"

text \<open>The loop over the results received until \<open>out\<close> is closed, and \<open>return nil\<close> after it.\<close>

fun receiveAll ::
  "nat \<Rightarrow> 's ReadWriteCloser \<Rightarrow> 64 word \<Rightarrow> event list \<Rightarrow> 's writer \<Rightarrow> error option \<times> 's writer" where
  "receiveAll toSort io firstBlock [] w = (None, w)"
| "receiveAll toSort io firstBlock (ev # evs) w =
     (case receive toSort io firstBlock ev w of
        Continue w' \<Rightarrow> receiveAll toSort io firstBlock evs w'
      | Return e w' \<Rightarrow> (e, w'))"

text \<open>
  The deferred function that stores the last blocks, over the sorted buffer: it appends
  the addresses of a job to \<open>buf.buf\<close>, calls \<open>buf.Write()\<close> and panics on its error.
\<close>

fun storeLast :: "'s ReadWriteCloser \<Rightarrow> TxsFroms list \<Rightarrow> 's AddressBuffer \<Rightarrow> error option \<times> 's AddressBuffer" where
  "storeLast io [] a = (None, a)"
| "storeLast io (job # jobs) a =
     (case Write io (AddAll (froms job) a) of
        ((written, Some e), a') \<Rightarrow> (Some e, a')
      | ((written, None), a') \<Rightarrow> storeLast io jobs a')"

datatype outcome = Returned "error option" | Panicked error

text \<open>
  \<open>writeOnDiskBatch\<close>: the loop, then the deferred functions in the reverse order of their
  \<open>defer\<close> statements; the second one runs also when the first one panics. The function
  returns what the loop returned: its result is not named, so the deferred assignments
  to \<open>err\<close> do not change it.
\<close>

definition startWriter :: "'s AddressBuffer \<Rightarrow> 's writer" where
  "startWriter a = \<lparr>n_w = 0, buffer_w = [], err_w = None, isFirst_w = True, currentBlock_w = 0, buf_w = a\<rparr>"

definition writeOnDiskBatch_window ::
  "nat \<Rightarrow> 's ReadWriteCloser \<Rightarrow> 's AddressBuffer \<Rightarrow> 64 word \<Rightarrow> event list \<Rightarrow> outcome \<times> 's AddressBuffer" where
  "writeOnDiskBatch_window toSort io a firstBlock evs =
     (case receiveAll toSort io firstBlock evs (startWriter a) of
        (r, w) \<Rightarrow>
          (case storeLast io (sortBuffer (buffer_w w)) (buf_w w) of
             (p, a1) \<Rightarrow>
               (case Write io a1 of
                  (res, a2) \<Rightarrow> (case p of Some e \<Rightarrow> (Panicked e, a2) | None \<Rightarrow> (Returned r, a2)))))"

definition toSort :: nat where
  "toSort = 1000"

definition writeOnDiskBatch ::
  "'s ReadWriteCloser \<Rightarrow> 's AddressBuffer \<Rightarrow> 64 word \<Rightarrow> event list \<Rightarrow> outcome \<times> 's AddressBuffer" where
  "writeOnDiskBatch io a firstBlock evs = writeOnDiskBatch_window toSort io a firstBlock evs"

subsection \<open>The spill of a buffer over a file\<close>




subsection \<open>Invariant of the spill writer\<close>


subsection \<open>Sample values\<close>

text \<open>
  Three addresses; a signer of chain 1 that fails on the transaction of hash 1; a
  database whose only block is block 1, with one transaction, and whose ideal batch size
  is 1; results for the spill writer, and a write-mode buffer over an empty file; a
  result that comes with \<open>quitCh\<close> closed, and a database with progress 10 on which one
  operation fails.
\<close>

definition addr1 :: address where "addr1 = replicate 20 1"

definition addr2 :: address where "addr2 = replicate 20 2"

definition addr3 :: address where "addr3 = replicate 20 3"

definition sampleSigner :: Signer where
  "sampleSigner = \<lparr>ChainID_s = 1,
      SenderWithContext = (\<lambda>ctx tx. if Hash tx = 1 then Inl (New ''invalid signature'') else Inr addr1)\<rparr>"

definition tx_unsigned :: Transaction where
  "tx_unsigned = \<lparr>Protected = False, ChainID = 0, Hash = 1, from_a = None\<rparr>"

definition tx_foreign :: Transaction where
  "tx_foreign = \<lparr>Protected = True, ChainID = 5, Hash = 2, from_a = None\<rparr>"

definition tx_good :: Transaction where
  "tx_good = \<lparr>Protected = True, ChainID = 1, Hash = 3, from_a = None\<rparr>"

definition sampleConfig :: ChainConfig where
  "sampleConfig = (\<lambda>n. sampleSigner)"

definition chainDB :: Database where
  "chainDB = \<lparr>canonical = (\<lambda>n. 0)(1 := 7),
              bodies = (\<lambda>k. None)((7, 1) := Some \<lparr>Transactions = [tx_good]\<rparr>),
              progress = 0, unwind = 3, idealBatchSize = 1, fault = (\<lambda>op. None)\<rparr>"

definition okRes :: "64 word \<Rightarrow> address list \<Rightarrow> event" where
  "okRes b fs = \<lparr>result = \<lparr>blockNumber = b, froms = fs, err_r = None\<rparr>, quitStopped = False, doneStopped = False\<rparr>"

definition failedRes :: "64 word \<Rightarrow> error \<Rightarrow> event" where
  "failedRes b e = \<lparr>result = \<lparr>blockNumber = b, froms = [], err_r = Some e\<rparr>, quitStopped = False, doneStopped = False\<rparr>"

definition wbuf :: "osfile AddressBuffer" where
  "wbuf = \<lparr>buf = [], size_a = 40, currentIdx = - 1, rwc = newFile []\<rparr>"



definition faulty :: "StorageOp \<Rightarrow> Database" where
  "faulty op = chainDB\<lparr>progress := 10, fault := (\<lambda>x. if x = op then Some (New ''db closed'') else None)\<rparr>"

section \<open>Properties\<close>

subsection \<open>AddressBuffer\<close>

text \<open>A call of \<open>Next\<close> inside the window, and one that refills it from a file.\<close>

lemma Next_window:
  assumes "0 \<le> currentIdx a" "(currentIdx a + 2) * 20 \<le> int (length (buf a))"
  shows "Next io a = (Inr (take 20 (drop (nat ((currentIdx a + 1) * 20)) (buf a))),
                      a\<lparr>currentIdx := currentIdx a + 1\<rparr>)"
  using assms by (simp add: Next_def fetch_def slice_def Let_def)

lemma Next_refill:
  assumes idx: "currentIdx a = - 1 \<or> int (length (buf a)) < (currentIdx a + 2) * 20"
    and U: "drop (offset (rwc a)) (content (rwc a)) = r @ R"
    and r: "length r = 20" and R: "20 dvd length R"
    and L: "20 dvd length (buf a)" "0 < length (buf a)"
  shows "Next osFile a =
     (Inr r, a\<lparr>currentIdx := 0,
               buf := take (length (buf a)) (r @ R) @ drop (min (length (buf a)) (length (r @ R))) (buf a),
               rwc := (rwc a)\<lparr>offset := offset (rwc a) + min (length (buf a)) (length (r @ R))\<rparr>\<rparr>)"
proof -
  define L where "L = length (buf a)"
  define bs where "bs = take L (r @ R)"
  define n where "n = min L (length (r @ R))"
  have L20: "20 \<le> L" using L unfolding L_def by (auto dest: dvd_imp_le)
  have len_bs: "length bs = n" by (simp add: bs_def n_def)
  have dv: "20 dvd n"
    unfolding n_def using r R L by (simp add: min_def L_def)
  have ge: "20 \<le> n" unfolding n_def using r L20 by simp
  have bs_ne: "bs \<noteq> []" using ge len_bs by auto
  have rd: "file_Read L (rwc a) = ((bs, None), (rwc a)\<lparr>offset := offset (rwc a) + n\<rparr>)"
    using L20 bs_ne U len_bs by (simp add: file_Read_def Let_def bs_def)
  have tk: "take 20 (bs @ drop n (buf a)) = r"
    using ge r L20 len_bs by (simp add: bs_def)
  have nz: "int n mod 20 = 0" "int n \<noteq> 0"
    using dv ge by presburger+
  have a1: "(if int (length (buf a)) < (currentIdx a + 2) * 20 then a\<lparr>currentIdx := - 1\<rparr> else a) = a\<lparr>currentIdx := - 1\<rparr>"
    using idx by auto
  have Rd: "Read osFile (a\<lparr>currentIdx := - 1\<rparr>) = ((int n, None), a\<lparr>currentIdx := - 1, buf := bs @ drop n (buf a), rwc := (rwc a)\<lparr>offset := offset (rwc a) + n\<rparr>\<rparr>)"
    using rd len_bs by (simp add: Read_def osFile_def L_def)
  have len2: "20 \<le> int (length (bs @ drop n (buf a)))" using len_bs ge by simp
  have ft: "fetch (a\<lparr>currentIdx := - 1, buf := bs @ drop n (buf a), rwc := (rwc a)\<lparr>offset := offset (rwc a) + n\<rparr>\<rparr>)
     = (Inr r, a\<lparr>currentIdx := 0, buf := bs @ drop n (buf a), rwc := (rwc a)\<lparr>offset := offset (rwc a) + n\<rparr>\<rparr>)"
    using tk len2 by (simp add: fetch_def slice_def Let_def del: length_append take_append)
  show ?thesis
    unfolding Next_def Let_def a1
    using nz by (simp add: Rd ft AddressLength_def) (simp add: bs_def n_def L_def)
qed

lemma take_length_append: "length A = n \<Longrightarrow> take n (A @ B) = A"
  by simp

lemma take_min_length: "take (min L (length X)) X = take L X"
  by (cases "L \<le> length X") (simp_all add: min_def)

lemma drop_take_drop: "m \<le> n \<Longrightarrow> drop m (take n X) @ drop n X = drop m X"
  by (induction X arbitrary: m n) (auto simp: take_Cons drop_Cons split: nat.splits)

lemma dvd20_concat: "\<forall>r\<in>set rest. length r = (20::nat) \<Longrightarrow> 20 dvd length (concat rest)"
  by (induction rest) auto

lemma reading_step:
  assumes inv: "reading v a (r # rest)"
  shows "\<exists>v' a'. Next osFile a = (Inr r, a') \<and> reading v' a' rest"
proof -
  define c where "c = currentIdx a"
  define L where "L = length (buf a)"
  define U where "U = unread (rwc a)"
  define k where "k = nat ((c + 1) * 20)"
  from inv have v20: "20 dvd v" and L20: "20 dvd L" and Lpos: "0 < L" and c1: "- 1 \<le> c"
    and kv: "(c + 1) * 20 \<le> int v" and vL: "v \<le> L" and c0: "c = - 1 \<longrightarrow> v = 0"
    and full: "U \<noteq> [] \<longrightarrow> v = L \<or> c = - 1"
    and cc: "r @ concat rest = drop k (take v (buf a)) @ U"
    and len: "length r = 20" "\<forall>x\<in>set rest. length x = 20"
    by (auto simp: reading_def c_def L_def U_def k_def)
  have R20: "20 dvd length (concat rest)" using len(2) by (rule dvd20_concat)
  have kk: "int k = (c + 1) * 20" "k \<le> v" using c1 kv by (auto simp: k_def)
  show ?thesis
  proof (cases "c = - 1 \<or> int L < (c + 2) * 20")
    case True
    have "k = v"
    proof (cases "c = - 1")
      case True then show ?thesis using c0 by (simp add: k_def)
    next
      case False
      with True have "int L < (c + 2) * 20" by simp
      then have "int v < int k + 20" using vL kk by simp
      moreover obtain q where "v = 20 * q" using v20 by auto
      moreover have "k = 20 * nat (c + 1)" using c1 by (simp add: k_def nat_mult_distrib)
      ultimately show ?thesis using kk(2) c1 by auto
    qed
    then have Ueq: "drop (offset (rwc a)) (content (rwc a)) = r @ concat rest"
      using cc by (simp add: U_def unread_def)
    let ?n = "min L (length (r @ concat rest))"
    let ?a' = "a\<lparr>currentIdx := 0, buf := take L (r @ concat rest) @ drop ?n (buf a),
                 rwc := (rwc a)\<lparr>offset := offset (rwc a) + ?n\<rparr>\<rparr>"
    have nx: "Next osFile a = (Inr r, ?a')"
      using Next_refill[OF _ Ueq len(1) R20] True L20 Lpos
      unfolding c_def L_def by blast
    have n20: "20 dvd ?n" using L20 R20 len(1) by (simp add: min_def)
    have nge: "20 \<le> ?n" using len(1) L20 Lpos by (auto dest: dvd_imp_le)
    have un: "unread (rwc ?a') = drop ?n (r @ concat rest)"
      using Ueq by (simp add: unread_def add.commute[of "offset (rwc a)"] flip: drop_drop)
    have bufn: "take ?n (buf ?a') = take ?n (r @ concat rest)"
      using take_length_append[of "take L (r @ concat rest)" ?n] take_min_length[of L "r @ concat rest"]
      by (simp del: take_append length_append)
    have lenb: "length (buf ?a') = L"
    proof -
      have "length (buf ?a') = ?n + (L - ?n)" by (simp add: L_def del: take_append length_append) simp
      then show ?thesis by simp
    qed
    have ct: "concat rest = drop 20 (take ?n (buf ?a')) @ unread (rwc ?a')"
    proof -
      have "drop 20 (take ?n (r @ concat rest)) @ drop ?n (r @ concat rest) = drop 20 (r @ concat rest)"
        using nge by (rule drop_take_drop)
      also have "\<dots> = concat rest" using len(1) by simp
      finally show ?thesis unfolding bufn un by simp
    qed
    have fl: "unread (rwc ?a') \<noteq> [] \<longrightarrow> ?n = L"
      unfolding un by (auto simp: min_def)
    have "reading ?n ?a' rest"
      unfolding reading_def using n20 L20 Lpos nge lenb ct fl len(2)
      by (simp del: take_append drop_append length_append length_take length_drop)
    with nx show ?thesis by blast
  next
    case False
    then have c0': "0 \<le> c" and fits: "(c + 2) * 20 \<le> int L" using c1 by auto
    let ?a' = "a\<lparr>currentIdx := c + 1\<rparr>"
    have nx: "Next osFile a = (Inr (take 20 (drop k (buf a))), ?a')"
      using Next_window[of a osFile] c0' fits by (simp add: c_def L_def k_def)
    have vk: "k + 20 \<le> v"
    proof (cases "U = []")
      case True
      then have "length (drop k (take v (buf a))) = 20 + length (concat rest)"
        using cc len(1) by (metis append_Nil2 length_append)
      then show ?thesis using vL by (simp add: L_def)
    next
      case False
      then have "v = L" using full c0' by auto
      then show ?thesis using fits kk by simp
    qed
    have l20: "20 \<le> length (drop k (take v (buf a)))" using vk vL by (simp add: L_def)
    have r_eq: "take 20 (drop k (buf a)) = r"
    proof -
      have "take 20 (drop k (buf a)) = take 20 (drop k (take v (buf a)))"
        using vk by (simp add: drop_take min_def)
      also have "\<dots> = take 20 (drop k (take v (buf a)) @ U)" using l20 by simp
      also have "\<dots> = take 20 (r @ concat rest)" using cc by simp
      also have "\<dots> = r" using len(1) by simp
      finally show ?thesis .
    qed
    have ct: "concat rest = drop (k + 20) (take v (buf a)) @ U"
    proof -
      have "concat rest = drop 20 (r @ concat rest)" using len(1) by simp
      also have "\<dots> = drop 20 (drop k (take v (buf a)) @ U)" using cc by simp
      also have "\<dots> = drop 20 (drop k (take v (buf a))) @ U" using l20 by simp
      finally show ?thesis by (simp add: add.commute)
    qed
    have k2: "nat ((c + 1 + 1) * 20) = k + 20" using c0' by (simp add: k_def nat_add_distrib algebra_simps)
    have "reading v ?a' rest"
      unfolding reading_def using v20 L20 Lpos c0' vk vL full ct len(2) k2
      by (simp add: L_def U_def)
    with nx r_eq show ?thesis by auto
  qed
qed

lemma reading_NextN:
  "reading v a rest \<Longrightarrow> fst (NextN osFile (length rest) a) = map Inr rest"
proof (induction rest arbitrary: v a)
  case Nil
  then show ?case by simp
next
  case (Cons r rest)
  from reading_step[OF Cons.prems] obtain v' a'
    where nx: "Next osFile a = (Inr r, a')" and inv: "reading v' a' rest" by blast
  from Cons.IH[OF inv] show ?case using nx by (simp add: case_prod_beta)
qed

lemma buf_AddAll: "buf (AddAll xs a) = buf a @ concat xs"
  by (induction xs arbitrary: a) (simp_all add: Add_def)

lemma rwc_AddAll: "rwc (AddAll xs a) = rwc a"
  by (induction xs arbitrary: a) (simp_all add: Add_def)

lemma sint_in_range:
  "0 \<le> x \<Longrightarrow> x < 2 ^ 63 \<Longrightarrow> sint (word_of_int x :: 64 word) = x"
  by (simp only: sint_sbintrunc' signed_take_bit_int_eq_self_iff) simp
lemma NewAddressBuffer_read:
  assumes "0 < sz" "sz * 20 < 2 ^ 63"
  shows "NewAddressBuffer f sz False =
     Some \<lparr>buf = replicate (nat (sz * 20)) 0, size_a = sz, currentIdx = - 1, rwc = f\<rparr>"
proof -
  have "sint (word_of_int (sz * 20) :: 64 word) = sz * 20"
    using assms by (intro sint_in_range) simp_all
  then show ?thesis
    unfolding NewAddressBuffer_def AddressLength_def Let_def using assms(1) by simp
qed

lemma NewAddressBuffer_write:
  "NewAddressBuffer f sz True = Some w \<Longrightarrow> buf w = [] \<and> rwc w = f"
  by (auto simp: NewAddressBuffer_def Let_def split: if_splits)

lemma Write_osFile_content:
  "Write osFile a = (res, a') \<Longrightarrow> content (rwc a') = content (rwc a) @ buf a"
  by (auto simp: Write_def osFile_def file_Write_def Reset_def split: if_splits)

text \<open>
  Claim C1. Any list of 20-byte addresses appended with \<open>Add\<close> to a write-mode
  buffer over an empty file and flushed with \<open>Write\<close> is returned, in order, by as many
  calls of \<open>Next\<close> on a read-mode buffer over the resulting file. The read window
  holds at least one record and its byte length fits Go's \<open>int\<close>.
\<close>

theorem AddressBuffer_roundtrip:
  assumes len: "\<forall>x\<in>set addrs. length x = 20"
    and w: "NewAddressBuffer (newFile []) wsz True = Some w"
    and wr: "Write osFile (AddAll addrs w) = (res, w')"
    and sz: "0 < sz" "sz * 20 < 2 ^ 63"
    and rd: "NewAddressBuffer (newFile (content (rwc w'))) sz False = Some r"
  shows "fst (NextN osFile (length addrs) r) = map Inr addrs"
proof -
  have "content (rwc w') = concat addrs"
    using Write_osFile_content[OF wr] NewAddressBuffer_write[OF w]
    by (simp add: buf_AddAll rwc_AddAll newFile_def)
  moreover have "r = \<lparr>buf = replicate (nat (sz * 20)) 0, size_a = sz, currentIdx = - 1,
                        rwc = newFile (content (rwc w'))\<rparr>"
    using rd NewAddressBuffer_read[OF sz, of "newFile (content (rwc w'))"] by simp
  moreover have "20 dvd nat (sz * 20)"
    using sz(1) by (simp add: nat_mult_distrib)
  ultimately have "reading 0 r addrs"
    using len sz by (simp add: reading_def unread_def newFile_def)
  then show ?thesis by (rule reading_NextN)
qed

theorem AddressBuffer_roundtrip_witness:
  "fst (NextN osFile (length [addr1, addr2, addr3]) (the (NewAddressBuffer
      (newFile (content (rwc (snd (Write osFile (AddAll [addr1, addr2, addr3]
          (the (NewAddressBuffer (newFile []) 2 True)))))))) 2 False)))
   = map Inr [addr1, addr2, addr3]"
proof -
  let ?w = "the (NewAddressBuffer (newFile []) 2 True)"
  let ?res = "Write osFile (AddAll [addr1, addr2, addr3] ?w)"
  let ?r = "the (NewAddressBuffer (newFile (content (rwc (snd ?res)))) 2 False)"
  have len: "\<forall>x\<in>set [addr1, addr2, addr3]. length x = 20"
    by (simp add: addr1_def addr2_def addr3_def)
  have w: "NewAddressBuffer (newFile []) 2 True = Some ?w"
    by (simp add: NewAddressBuffer_def AddressLength_def)
  have wr: "Write osFile (AddAll [addr1, addr2, addr3] ?w) = (fst ?res, snd ?res)" by simp
  have rd: "NewAddressBuffer (newFile (content (rwc (snd ?res)))) 2 False = Some ?r"
    by (simp add: NewAddressBuffer_def AddressLength_def)
  show ?thesis
    by (rule AddressBuffer_roundtrip[OF len w wr _ _ rd]) simp_all
qed

text \<open>
  Claim C10. \<open>Write\<close> on an empty accumulator returns 0 and no error and leaves the
  buffer and its stream as they are, whatever the stream (no call reaches it); after a
  successful \<open>Write\<close> of a non-empty accumulator the accumulator is empty, and a
  \<open>Write\<close> repeated at once returns 0, no error and changes nothing.
\<close>

theorem Write_flush_idempotent:
  "(buf a = [] \<longrightarrow> Write io a = ((0, None), a)) \<and>
   (buf a \<noteq> [] \<and> Write io a = ((n, None), a') \<longrightarrow>
      buf a' = [] \<and> Write io a' = ((0, None), a'))"
  by (auto simp: Write_def Reset_def split: prod.splits option.splits)

theorem Write_flush_idempotent_witness:
  "Write osFile \<lparr>buf = [], size_a = 2, currentIdx = - 1, rwc = newFile []\<rparr>
     = ((0, None), \<lparr>buf = [], size_a = 2, currentIdx = - 1, rwc = newFile []\<rparr>) \<and>
   buf (snd (Write osFile \<lparr>buf = addr1, size_a = 2, currentIdx = - 1, rwc = newFile []\<rparr>)) = [] \<and>
   Write osFile (snd (Write osFile \<lparr>buf = addr1, size_a = 2, currentIdx = - 1, rwc = newFile []\<rparr>))
     = ((0, None), snd (Write osFile \<lparr>buf = addr1, size_a = 2, currentIdx = - 1, rwc = newFile []\<rparr>))"
proof -
  let ?e = "\<lparr>buf = [], size_a = 2, currentIdx = - 1, rwc = newFile []\<rparr>"
  let ?x = "\<lparr>buf = addr1, size_a = 2, currentIdx = - 1, rwc = newFile []\<rparr>"
  have ne: "buf ?x \<noteq> []" by (simp add: addr1_def)
  have ok: "Write osFile ?x = ((20, None), snd (Write osFile ?x))"
    by (simp add: Write_def osFile_def file_Write_def addr1_def)
  show ?thesis
    using Write_flush_idempotent[of ?e osFile 20 "snd (Write osFile ?x)"]
      Write_flush_idempotent[of ?x osFile 20 "snd (Write osFile ?x)"] ne ok
    by simp
qed

text \<open>
  Claim C7 at the input where the code leaves it: a read-mode buffer of two records over a
  file that holds one address. The first \<open>Next\<close> returns the address; \<open>Read\<close> returned
  20 bytes, which \<open>Next\<close> does not remember, so the second \<open>Next\<close> returns the 20 zero
  bytes left in the window, with no error; only the third reports \<open>io.EOF\<close>.
\<close>

theorem Next_after_short_read:
  "fst (NextN osFile 3 (the (NewAddressBuffer (newFile addr1) 2 False)))
     = [Inr addr1, Inr (replicate 20 0), Inl EOF]"
  by (simp add: NewAddressBuffer_def AddressLength_def addr1_def newFile_def Next_def Read_def osFile_def file_Read_def fetch_def slice_def Let_def numeral_eq_Suc)

subsection \<open>recoverFrom\<close>

lemma take_Suc_update: "i < length xs \<Longrightarrow> take (Suc i) (xs[i := x]) = take i xs @ [x]"
  by (simp add: take_Suc_conv_app_nth)

lemma recoverFrom_loop_ok:
  "i + length txs \<le> length fs \<Longrightarrow> find (failing ctx sg) txs = None \<Longrightarrow>
   recoverFrom_loop ctx sg txs i fs =
     (Some (take i fs @ map (recovered ctx sg) txs @ drop (i + length txs) fs), None)"
proof (induction txs arbitrary: i fs)
  case Nil
  then show ?case by simp
next
  case (Cons tx txs)
  from Cons.prems(2) have ok: "\<not> failing ctx sg tx" and rest: "find (failing ctx sg) txs = None"
    by (auto split: if_splits)
  from ok obtain a where a: "SenderWithContext sg ctx tx = Inr a"
    by (auto simp: failing_def unrecoverable_def split: sum.splits)
  have nm: "\<not> (Protected tx \<and> ChainID tx \<noteq> ChainID_s sg)"
    using ok by (simp add: failing_def mismatch_def)
  have i: "i < length fs" using Cons.prems(1) by simp
  have len: "Suc i + length txs \<le> length (fs[i := a])" using Cons.prems(1) by simp
  have "recoverFrom_loop ctx sg (tx # txs) i fs = recoverFrom_loop ctx sg txs (Suc i) (fs[i := a])"
    using nm a i by auto
  also have "\<dots> = (Some (take (Suc i) (fs[i := a]) @ map (recovered ctx sg) txs
                        @ drop (Suc i + length txs) (fs[i := a])), None)"
    by (rule Cons.IH[OF len rest])
  also have "take (Suc i) (fs[i := a]) = take i fs @ [a]" using i by (rule take_Suc_update)
  also have "drop (Suc i + length txs) (fs[i := a]) = drop (i + length (tx # txs)) fs"
    by simp
  finally show ?case using a by (simp add: recovered_def)
qed

lemma recoverFrom_loop_fail:
  "i + length txs \<le> length fs \<Longrightarrow> find (failing ctx sg) txs = Some tx \<Longrightarrow>
   recoverFrom_loop ctx sg txs i fs =
     (None, Some (if mismatch sg tx then New ''invalid chainId'' else recoveryError ctx sg tx))"
proof (induction txs arbitrary: i fs)
  case Nil
  then show ?case by simp
next
  case (Cons t txs)
  show ?case
  proof (cases "failing ctx sg t")
    case True
    then have "tx = t" using Cons.prems(2) by simp
    then show ?thesis using True
      by (auto simp: failing_def mismatch_def unrecoverable_def recoveryError_def split: sum.splits)
  next
    case False
    then have rest: "find (failing ctx sg) txs = Some tx" using Cons.prems(2) by simp
    from False obtain a where a: "SenderWithContext sg ctx t = Inr a"
      by (auto simp: failing_def unrecoverable_def split: sum.splits)
    have nm: "\<not> (Protected t \<and> ChainID t \<noteq> ChainID_s sg)"
      using False by (simp add: failing_def mismatch_def)
    have i: "i < length fs" using Cons.prems(1) by simp
    have len: "Suc i + length txs \<le> length (fs[i := a])" using Cons.prems(1) by simp
    show ?thesis using Cons.IH[OF len rest] nm a i by auto
  qed
qed

text \<open>
  Claim C4, amended. \<open>recoverFrom\<close> is all-or-nothing, and the first failing transaction
  in transaction order decides the error: when it is a replay-protected transaction of
  another chain the result is the nil list and "invalid chainId"; when its recovery
  fails the result is the nil list and the recovery error wrapped with its hash; when no
  transaction fails the result is the recovered address of each transaction, in order,
  and no error. A returned list is never partial.
\<close>

theorem recoverFrom_first_failure:
  "(\<forall>tx. find (failing ctx sg) (Transactions body) = Some tx \<and> mismatch sg tx \<longrightarrow>
      recoverFrom ctx body sg = (None, Some (New ''invalid chainId''))) \<and>
   (\<forall>tx err. find (failing ctx sg) (Transactions body) = Some tx \<and> \<not> mismatch sg tx \<and>
        SenderWithContext sg ctx tx = Inl err \<longrightarrow>
      recoverFrom ctx body sg = (None, Some (WrapTx err (Hash tx)))) \<and>
   (find (failing ctx sg) (Transactions body) = None \<longrightarrow>
      recoverFrom ctx body sg = (Some (map (recovered ctx sg) (Transactions body)), None) \<and>
      (\<forall>tx \<in> set (Transactions body). SenderWithContext sg ctx tx = Inr (recovered ctx sg tx))) \<and>
   (\<forall>fs e. recoverFrom ctx body sg = (Some fs, e) \<longrightarrow>
      e = None \<and> length fs = length (Transactions body))"
proof -
  let ?txs = "Transactions body"
  have len: "0 + length ?txs \<le> length (replicate (length ?txs) zeroAddress)" by simp
  have A: "recoverFrom ctx body sg = (None, Some (New ''invalid chainId''))"
    if "find (failing ctx sg) ?txs = Some tx" "mismatch sg tx" for tx
    using recoverFrom_loop_fail[OF len that(1)] that(2) by (simp add: recoverFrom_def)
  have B: "recoverFrom ctx body sg = (None, Some (WrapTx err (Hash tx)))"
    if "find (failing ctx sg) ?txs = Some tx" "\<not> mismatch sg tx"
       "SenderWithContext sg ctx tx = Inl err" for tx err
    using recoverFrom_loop_fail[OF len that(1)] that(2,3) by (simp add: recoverFrom_def recoveryError_def)
  have C: "recoverFrom ctx body sg = (Some (map (recovered ctx sg) ?txs), None)"
    if "find (failing ctx sg) ?txs = None"
    using recoverFrom_loop_ok[OF len that] by (simp add: recoverFrom_def)
  have C': "\<forall>tx \<in> set ?txs. SenderWithContext sg ctx tx = Inr (recovered ctx sg tx)"
    if "find (failing ctx sg) ?txs = None"
    using that by (auto simp: find_None_iff failing_def unrecoverable_def recovered_def split: sum.splits)
  have D: "e = None \<and> length fs = length ?txs"
    if "recoverFrom ctx body sg = (Some fs, e)" for fs e
  proof (cases "find (failing ctx sg) ?txs")
    case None
    from C[OF None] that show ?thesis by auto
  next
    case (Some tx)
    from recoverFrom_loop_fail[OF len Some] that show ?thesis by (simp add: recoverFrom_def)
  qed
  show ?thesis using A B C C' D by blast
qed

text \<open>
  Claim C4 as stated fails where a recovery failure precedes a chain mismatch: the body
  holds a replay-protected transaction of another chain, and the error is not
  "invalid chainId" but the recovery error of the earlier transaction.
\<close>

theorem recoverFrom_mismatch_counterexample:
  "Protected tx_foreign \<and> ChainID tx_foreign \<noteq> ChainID_s sampleSigner \<and>
   recoverFrom 0 \<lparr>Transactions = [tx_unsigned, tx_foreign]\<rparr> sampleSigner
     = (None, Some (WrapTx (New ''invalid signature'') 1)) \<and>
   recoverFrom 0 \<lparr>Transactions = [tx_unsigned, tx_foreign]\<rparr> sampleSigner
     \<noteq> (None, Some (New ''invalid chainId''))"
  by (simp add: recoverFrom_def tx_foreign_def tx_unsigned_def sampleSigner_def)

theorem recoverFrom_first_failure_witness:
  "recoverFrom 0 \<lparr>Transactions = [tx_good, tx_foreign, tx_unsigned]\<rparr> sampleSigner = (None, Some (New ''invalid chainId'')) \<and>
   recoverFrom 0 \<lparr>Transactions = [tx_good, tx_unsigned, tx_foreign]\<rparr> sampleSigner = (None, Some (WrapTx (New ''invalid signature'') 1)) \<and>
   recoverFrom 0 \<lparr>Transactions = [tx_good, tx_good]\<rparr> sampleSigner = (Some [addr1, addr1], None)"
proof -
  have f1: "find (failing 0 sampleSigner) (Transactions \<lparr>Transactions = [tx_good, tx_foreign, tx_unsigned]\<rparr>) = Some tx_foreign
      \<and> mismatch sampleSigner tx_foreign"
    by (simp add: failing_def mismatch_def unrecoverable_def tx_good_def tx_foreign_def sampleSigner_def)
  have f2: "find (failing 0 sampleSigner) (Transactions \<lparr>Transactions = [tx_good, tx_unsigned, tx_foreign]\<rparr>) = Some tx_unsigned
      \<and> \<not> mismatch sampleSigner tx_unsigned \<and> SenderWithContext sampleSigner 0 tx_unsigned = Inl (New ''invalid signature'')"
    by (simp add: failing_def mismatch_def unrecoverable_def tx_good_def tx_unsigned_def sampleSigner_def)
  have f3: "find (failing 0 sampleSigner) (Transactions \<lparr>Transactions = [tx_good, tx_good]\<rparr>) = None"
    by (simp add: failing_def mismatch_def unrecoverable_def tx_good_def sampleSigner_def)
  have r: "recovered 0 sampleSigner tx_good = addr1"
    by (simp add: recovered_def sampleSigner_def tx_good_def)
  show ?thesis
    using recoverFrom_first_failure[of 0 sampleSigner "\<lparr>Transactions = [tx_good, tx_foreign, tx_unsigned]\<rparr>"]
      recoverFrom_first_failure[of 0 sampleSigner "\<lparr>Transactions = [tx_good, tx_unsigned, tx_foreign]\<rparr>"]
      recoverFrom_first_failure[of 0 sampleSigner "\<lparr>Transactions = [tx_good, tx_good]\<rparr>"]
      f1 f2 f3 r
    by (simp add: tx_unsigned_def)
qed

subsection \<open>The workers\<close>

lemma appendContexts_eq:
  "appendContexts k g =
     g\<lparr>cryptoContexts := cryptoContexts g @ [created g ..< created g + k], created := created g + k\<rparr>"
proof (induction k arbitrary: g)
  case 0
  then show ?case by simp
next
  case (Suc k)
  have "[created g ..< created g + Suc k] = created g # [Suc (created g) ..< Suc (created g) + k]"
    by (simp add: upt_conv_Cons)
  then show ?case by (simp add: Suc.IH NewContext_def)
qed

lemma init_eq:
  "init numCPU = Some g \<Longrightarrow>
     g = \<lparr>numOfGoroutines = min 3 numCPU, cryptoContexts = [0 ..< nat (min 3 numCPU)],
          created = nat (min 3 numCPU)\<rparr>"
  by (auto simp: init_def Let_def appendContexts_eq min_def split: if_splits)

lemma upt_split: "m \<le> n \<Longrightarrow> [0 ..< m] @ [m ..< m + (n - m)] = [0 ..< n]"
  using upt_add_eq_append[of 0 m "n - m"] by simp

lemma map_nth_upt: "n \<le> length xs \<Longrightarrow> map (\<lambda>i. xs ! i) [0 ..< n] = take n xs"
  by (rule nth_equalityI) simp_all

lemma startWorkers_pool:
  assumes pool: "cryptoContexts g = [0 ..< created g]" and small: "created g < 32"
  shows "startWorkers False g = Some ([0 ..< 32], g\<lparr>cryptoContexts := [0 ..< 32], created := 32\<rparr>)"
proof -
  define N :: nat where "N = 32"
  define m where "m = created g"
  have mN: "m \<le> N" "m < N" using small by (simp_all add: N_def m_def)
  have len: "length (cryptoContexts g) = m" by (simp add: pool m_def)
  have grow: "appendContexts (N - m) g = g\<lparr>cryptoContexts := [0 ..< N], created := N\<rparr>"
    using upt_split[OF mN(1)] mN(1) by (simp add: appendContexts_eq pool m_def)
  have n: "nat (32 - int m) = N - m" by (simp add: N_def)
  have lt: "int (length (cryptoContexts g)) < 32" using mN(2) by (simp add: len N_def)
  have mp: "map (\<lambda>i. [0 ..< N] ! i) [0 ..< N] = [0 ..< N]"
    using map_nth_upt[of N "[0 ..< N]"] by simp
  have N32: "nat 32 = N" by (simp add: N_def)
  have "startWorkers False g = Some ([0 ..< N], g\<lparr>cryptoContexts := [0 ..< N], created := N\<rparr>)"
    unfolding startWorkers_def Let_def len N32 n
    using lt grow mp len by (simp del: upt_rec_numeral)
  then show ?thesis by (simp only: N_def)
qed

lemma startWorkers_after_init:
  assumes "init numCPU = Some g"
  shows "startWorkers False g = Some ([0 ..< 32], g\<lparr>cryptoContexts := [0 ..< 32], created := 32\<rparr>)"
proof -
  have g: "g = \<lparr>numOfGoroutines = min 3 numCPU, cryptoContexts = [0 ..< nat (min 3 numCPU)],
          created = nat (min 3 numCPU)\<rparr>"
    using assms by (rule init_eq)
  have "cryptoContexts g = [0 ..< created g]" by (subst (1 2) g) simp
  moreover have "created g < 32" by (subst g) simp
  ultimately show ?thesis by (rule startWorkers_pool)
qed

text \<open>
  Claim C9, amended. \<open>init\<close> sizes the pool to min(3, NumCPU): that many contexts, all
  different. \<open>spawnRecoverSendersStage\<close> does not spawn that many workers: with its first
  phase enabled it overrides the count with 32, grows the pool to 32 contexts and starts
  32 workers, each with a context of its own, whatever the number of CPUs; as written
  (\<open>onlySecondStage\<close> is true) it starts none and leaves the pool alone.
\<close>

theorem worker_count:
  assumes "init numCPU = Some g"
  shows "numOfGoroutines g = min 3 numCPU \<and> length (cryptoContexts g) = nat (min 3 numCPU) \<and>
         distinct (cryptoContexts g) \<and>
         (\<exists>ws g'. startWorkers False g = Some (ws, g') \<and> length ws = 32 \<and> distinct ws) \<and>
         startWorkers onlySecondStage g = Some ([], g)"
proof -
  have g: "g = \<lparr>numOfGoroutines = min 3 numCPU, cryptoContexts = [0 ..< nat (min 3 numCPU)],
          created = nat (min 3 numCPU)\<rparr>"
    using assms by (rule init_eq)
  have 1: "numOfGoroutines g = min 3 numCPU" by (subst g) simp
  have 2: "length (cryptoContexts g) = nat (min 3 numCPU)" by (subst g) simp
  have 3: "distinct (cryptoContexts g)" by (subst g) simp
  have 4: "\<exists>ws g'. startWorkers False g = Some (ws, g') \<and> length ws = 32 \<and> distinct ws"
    using startWorkers_after_init[OF assms] by simp
  have 5: "startWorkers onlySecondStage g = Some ([], g)"
    by (simp add: startWorkers_def onlySecondStage_def)
  show ?thesis using 1 2 3 4 5 by blast
qed

theorem worker_count_witness:
  "numOfGoroutines (the (init 8)) = 3 \<and> length (cryptoContexts (the (init 8))) = 3 \<and>
   length (fst (the (startWorkers False (the (init 8))))) = 32 \<and>
   distinct (fst (the (startWorkers False (the (init 8))))) \<and>
   startWorkers onlySecondStage (the (init 8)) = Some ([], the (init 8))"
proof -
  have i: "init 8 = Some (the (init 8))" by (simp add: init_def)
  show ?thesis using worker_count[OF i] by auto
qed

text \<open>
  Claim C9 as stated fails on a machine with 8 CPUs: the stage starts no worker as
  written, and 32 with its first phase enabled, not min(3, 8) = 3.
\<close>

theorem worker_count_counterexample:
  "length (fst (the (startWorkers onlySecondStage (the (init 8))))) \<noteq> nat (min 3 8) \<and>
   length (fst (the (startWorkers False (the (init 8))))) \<noteq> nat (min 3 8)"
proof -
  have i: "init 8 = Some (the (init 8))" by (simp add: init_def)
  show ?thesis using startWorkers_after_init[OF i]
    by (simp add: startWorkers_def onlySecondStage_def)
qed

subsection \<open>Storage, the apply pass and unwind\<close>

lemma view_NewBatch: "view (NewBatch d) = d"
  by (simp add: view_def NewBatch_def)

lemma view_Put: "view (Put p m) = apply_put (view m) p"
  by (simp add: view_def Put_def)

text \<open>
  Claim C6, amended. Whatever the unwind target, \<open>unwindSendersStage\<close> leaves the progress
  cursor as it is. When reading the progress or saving the marker fails, it returns that
  error with its context and changes nothing. Otherwise, for a target at or beyond the
  progress it sets the unwind marker to 0 on the database and changes nothing else; for
  a target below the progress it puts the marker 0 into a fresh batch and commits the
  batch: when the commit succeeds the database differs in the marker alone, which is 0,
  and when the commit fails the function returns that error with its context and the
  database is as it was.
\<close>

theorem unwindSendersStage_keeps_progress:
  "progress (snd (unwindSendersStage stateDB unwindPoint)) = progress stateDB \<and>
   (\<forall>e. fault stateDB OpGetStageProgress = Some e \<longrightarrow>
      unwindSendersStage stateDB unwindPoint
        = (Some (Errorf ''unwind Senders: get stage progress: '' e), stateDB)) \<and>
   (fault stateDB OpGetStageProgress = None \<longrightarrow>
      (\<forall>e. fault stateDB OpSaveStageUnwind = Some e \<longrightarrow>
         unwindSendersStage stateDB unwindPoint = (Some (Errorf ''unwind Senders: reset: '' e), stateDB)) \<and>
      (fault stateDB OpSaveStageUnwind = None \<longrightarrow>
         (unwindPoint \<ge> progress stateDB \<longrightarrow>
            unwindSendersStage stateDB unwindPoint = (None, stateDB\<lparr>unwind := 0\<rparr>)) \<and>
         (unwindPoint < progress stateDB \<longrightarrow>
            unwindSendersStage stateDB unwindPoint
              = (case Commit (Put (PutStageUnwind 0) (NewBatch stateDB)) of
                   (Some e, m) \<Rightarrow> (Some (Errorf ''unwind Senders: failed to write db commit: '' e), db m)
                 | (None, m) \<Rightarrow> (None, db m)) \<and>
            (fault stateDB OpCommit = None \<longrightarrow>
               unwindSendersStage stateDB unwindPoint = (None, stateDB\<lparr>unwind := 0\<rparr>)) \<and>
            (\<forall>e. fault stateDB OpCommit = Some e \<longrightarrow>
               unwindSendersStage stateDB unwindPoint
                 = (Some (Errorf ''unwind Senders: failed to write db commit: '' e), stateDB)))))"
  by (auto simp: unwindSendersStage_def GetStageProgress_def SaveStageUnwind_db_def
        SaveStageUnwind_def Commit_def NewBatch_def Put_def view_def Let_def
      split: option.splits if_splits)

theorem unwindSendersStage_keeps_progress_witness:
  "unwindSendersStage (chainDB\<lparr>progress := 10\<rparr>) 5 = (None, chainDB\<lparr>progress := 10, unwind := 0\<rparr>) \<and>
   unwindSendersStage (chainDB\<lparr>progress := 10\<rparr>) 12 = (None, chainDB\<lparr>progress := 10, unwind := 0\<rparr>) \<and>
   unwindSendersStage (faulty OpCommit) 5
     = (Some (Errorf ''unwind Senders: failed to write db commit: '' (New ''db closed'')), faulty OpCommit) \<and>
   unwindSendersStage (faulty OpCommit) 12 = (None, (faulty OpCommit)\<lparr>unwind := 0\<rparr>) \<and>
   unwindSendersStage (faulty OpSaveStageUnwind) 5
     = (Some (Errorf ''unwind Senders: reset: '' (New ''db closed'')), faulty OpSaveStageUnwind) \<and>
   unwindSendersStage (faulty OpGetStageProgress) 5
     = (Some (Errorf ''unwind Senders: get stage progress: '' (New ''db closed'')), faulty OpGetStageProgress)"
proof -
  let ?d = "chainDB\<lparr>progress := 10\<rparr>"
  have d: "fault ?d OpGetStageProgress = None" "fault ?d OpSaveStageUnwind = None" "fault ?d OpCommit = None"
    "(5 :: 64 word) < progress ?d" "(12 :: 64 word) \<ge> progress ?d"
    by (simp_all add: chainDB_def)
  have c: "fault (faulty OpCommit) OpGetStageProgress = None" "fault (faulty OpCommit) OpSaveStageUnwind = None"
    "fault (faulty OpCommit) OpCommit = Some (New ''db closed'')"
    "(5 :: 64 word) < progress (faulty OpCommit)" "(12 :: 64 word) \<ge> progress (faulty OpCommit)"
    by (simp_all add: faulty_def)
  have s: "fault (faulty OpSaveStageUnwind) OpGetStageProgress = None"
    "fault (faulty OpSaveStageUnwind) OpSaveStageUnwind = Some (New ''db closed'')"
    by (simp_all add: faulty_def)
  have g: "fault (faulty OpGetStageProgress) OpGetStageProgress = Some (New ''db closed'')"
    by (simp add: faulty_def)
  have w1: "unwindSendersStage ?d 5 = (None, ?d\<lparr>unwind := 0\<rparr>)"
    using unwindSendersStage_keeps_progress[of ?d 5] d by blast
  have w2: "unwindSendersStage ?d 12 = (None, ?d\<lparr>unwind := 0\<rparr>)"
    using unwindSendersStage_keeps_progress[of ?d 12] d by blast
  have w3: "unwindSendersStage (faulty OpCommit) 5
     = (Some (Errorf ''unwind Senders: failed to write db commit: '' (New ''db closed'')), faulty OpCommit)"
    using unwindSendersStage_keeps_progress[of "faulty OpCommit" 5] c by blast
  have w4: "unwindSendersStage (faulty OpCommit) 12 = (None, (faulty OpCommit)\<lparr>unwind := 0\<rparr>)"
    using unwindSendersStage_keeps_progress[of "faulty OpCommit" 12] c by blast
  have w5: "unwindSendersStage (faulty OpSaveStageUnwind) 5
     = (Some (Errorf ''unwind Senders: reset: '' (New ''db closed'')), faulty OpSaveStageUnwind)"
    using unwindSendersStage_keeps_progress[of "faulty OpSaveStageUnwind" 5] s by blast
  have w6: "unwindSendersStage (faulty OpGetStageProgress) 5
     = (Some (Errorf ''unwind Senders: get stage progress: '' (New ''db closed'')), faulty OpGetStageProgress)"
    using unwindSendersStage_keeps_progress[of "faulty OpGetStageProgress" 5] g by blast
  show ?thesis using w1 w2 w3 w4 w5 w6 by blast
qed

text \<open>
  Claim C6 as stated fails for a target below the progress: with progress 10 and target 5
  the stage returns no error and the progress is still 10.
\<close>

theorem unwindSendersStage_counterexample:
  "(5 :: 64 word) < progress (chainDB\<lparr>progress := 10\<rparr>) \<and>
   fst (unwindSendersStage (chainDB\<lparr>progress := 10\<rparr>) 5) = None \<and>
   progress (snd (unwindSendersStage (chainDB\<lparr>progress := 10\<rparr>) 5)) = 10 \<and>
   progress (snd (unwindSendersStage (chainDB\<lparr>progress := 10\<rparr>) 5)) \<noteq> 5"
  by (simp add: unwindSendersStage_def GetStageProgress_def SaveStageUnwind_def Commit_def
        NewBatch_def Put_def view_def chainDB_def)

text \<open>
  Claim C8. \<open>getBlockBody\<close> returns no job exactly when the canonical hash of the block
  number is empty or the body is absent for it; at such a block number the loop of
  \<open>writeBatchFromDisk\<close> returns with a nil error, the buffer and the mutation as they
  are, and the producer loop, unless stopped, ends having sent no job and no error.
\<close>

theorem absent_block_ends_loops:
  "(getBlockBody mutation config n = None \<longleftrightarrow>
      IsEmpty (ReadCanonicalHash mutation n) \<or>
      ReadBody mutation (ReadCanonicalHash mutation n) n = None) \<and>
   (getBlockBody mutation config n = None \<longrightarrow>
      writeBatchFromDisk_loop (Suc fuel) io config a mutation n = Some (None, a, mutation) \<and>
      (\<not> quit i \<longrightarrow>
         producer (Suc fuel) quit i mutation config firstBlock n = Some ([], None, firstBlock, n)))"
  by (auto simp: getBlockBody_def Let_def split: option.splits)

theorem absent_block_ends_loops_witness:
  "getBlockBody (NewBatch chainDB) sampleConfig 1 \<noteq> None \<and>
   getBlockBody (NewBatch chainDB) sampleConfig 2 = None \<and>
   writeBatchFromDisk_loop (Suc 0) osFile sampleConfig (the (NewAddressBuffer (newFile addr1) 1 False))
       (NewBatch chainDB) 2
     = Some (None, the (NewAddressBuffer (newFile addr1) 1 False), NewBatch chainDB) \<and>
   producer (Suc 0) (\<lambda>i. False) 0 (NewBatch chainDB) sampleConfig 0 2 = Some ([], None, 0, 2)"
proof -
  have p: "\<not> (IsEmpty (ReadCanonicalHash (NewBatch chainDB) 1) \<or>
      ReadBody (NewBatch chainDB) (ReadCanonicalHash (NewBatch chainDB) 1) 1 = None)"
    by (simp add: IsEmpty_def ReadCanonicalHash_def ReadBody_def view_NewBatch chainDB_def)
  have q: "IsEmpty (ReadCanonicalHash (NewBatch chainDB) 2)"
    by (simp add: IsEmpty_def ReadCanonicalHash_def view_NewBatch chainDB_def)
  show ?thesis
    using absent_block_ends_loops[of "NewBatch chainDB" sampleConfig 1 0 osFile
            "the (NewAddressBuffer (newFile addr1) 1 False)" "\<lambda>i. False" 0 0]
      absent_block_ends_loops[of "NewBatch chainDB" sampleConfig 2 0 osFile
            "the (NewAddressBuffer (newFile addr1) 1 False)" "\<lambda>i. False" 0 0]
      p q
    by blast
qed

text \<open>A read-mode buffer of one record over a file that holds one address.\<close>

lemma Next_one:
  "Next osFile (the (NewAddressBuffer (newFile addr1) 1 False)) =
     (Inr addr1, \<lparr>buf = addr1, size_a = 1, currentIdx = 0, rwc = \<lparr>content = addr1, offset = 20\<rparr>\<rparr>)"
  by (simp add: NewAddressBuffer_def AddressLength_def addr1_def newFile_def Next_def Read_def
        osFile_def file_Read_def fetch_def slice_def Let_def)

text \<open>
  Claim C5 at the input where the code leaves it: block 1 is the only block, its body has
  one transaction, the ideal batch size is 1 and the progress is 0. The body takes one
  address from the buffer and is committed, the batch is fresh again, and the persisted
  progress is 2, the number after the block just committed.
\<close>

theorem writeBatchFromDisk_progress_off_by_one:
  "writeBatchFromDisk 2 osFile (the (NewAddressBuffer (newFile addr1) 1 False)) sampleConfig
       (NewBatch chainDB) 0
     = Some (None, \<lparr>buf = addr1, size_a = 1, currentIdx = 0, rwc = \<lparr>content = addr1, offset = 20\<rparr>\<rparr>,
             NewBatch (chainDB\<lparr>bodies := (bodies chainDB)((7, 1) := Some \<lparr>Transactions = [SetFrom addr1 tx_good]\<rparr>),
                               progress := 2\<rparr>)) \<and>
   ReadCanonicalHash (NewBatch chainDB) 1 = 7 \<and> IsEmpty (ReadCanonicalHash (NewBatch chainDB) 2)"
proof -
  have g1: "getBlockBody (NewBatch chainDB) sampleConfig 1 =
      Some \<lparr>signer = sampleSigner, blockBody = \<lparr>Transactions = [tx_good]\<rparr>, hash = 7,
            nextBlockNumber = 1, err_j = None\<rparr>"
    by (simp add: getBlockBody_def IsEmpty_def ReadCanonicalHash_def ReadBody_def view_NewBatch
          chainDB_def MakeSigner_def sampleConfig_def)
  let ?d = "chainDB\<lparr>bodies := (bodies chainDB)((7, 1) := Some \<lparr>Transactions = [SetFrom addr1 tx_good]\<rparr>),
                     progress := 2\<rparr>"
  have g2: "getBlockBody (NewBatch ?d) sampleConfig 2 = None"
    by (simp add: getBlockBody_def IsEmpty_def ReadCanonicalHash_def view_NewBatch chainDB_def)
  have c: "Commit (Put (PutStageProgress 2) (Put (PutBody 7 1 \<lparr>Transactions = [SetFrom addr1 tx_good]\<rparr>) (NewBatch chainDB)))
      = (None, NewBatch ?d)"
    by (simp add: Commit_def Put_def NewBatch_def view_def chainDB_def)
  have sz: "BatchSize (Put p (NewBatch chainDB)) = 1" "IdealBatchSize (Put p (NewBatch chainDB)) = 1"
      "fault (db (Put p (NewBatch chainDB))) = (\<lambda>op. None)" for p
    by (simp_all add: BatchSize_def IdealBatchSize_def Put_def NewBatch_def chainDB_def)
  have db: "db (NewBatch ?d) = ?d" by (simp add: NewBatch_def)
  have "writeBatchFromDisk_loop (Suc (Suc 0)) osFile sampleConfig (the (NewAddressBuffer (newFile addr1) 1 False))
          (NewBatch chainDB) 1
        = Some (None, \<lparr>buf = addr1, size_a = 1, currentIdx = 0, rwc = \<lparr>content = addr1, offset = 20\<rparr>\<rparr>, NewBatch ?d)"
    by (simp add: g1 Next_one WriteBody_def sz Update_def c db g2 del: fun_upd_apply)
  then show ?thesis
    by (simp add: writeBatchFromDisk_def numeral_2_eq_2 ReadCanonicalHash_def view_NewBatch IsEmpty_def chainDB_def)
qed

subsection \<open>writeOnDiskBatch\<close>






















text \<open>
  Claim C3 at the input where the code leaves it: the result of block 10 is followed by
  a result that carries an error. The first test of \<open>j.err\<close> returns the local \<open>err\<close>, which
  is nil, so \<open>writeOnDiskBatch\<close> returns no error; the deferred function writes the
  address of block 10.
\<close>

theorem writeOnDiskBatch_drops_error:
  "writeOnDiskBatch osFile wbuf 10 [okRes 10 [addr1], failedRes 11 (New ''invalid chainId'')]
     = (Returned None, wbuf\<lparr>rwc := newFile addr1\<rparr>)"
  by (simp add: writeOnDiskBatch_def writeOnDiskBatch_window_def toSort_def receive_def startWriter_def
       okRes_def failedRes_def sortBuffer_def hasRow_def wbuf_def Add_def Write_def osFile_def
       file_Write_def Reset_def newFile_def Let_def addr1_def)

end
